theory Spec2Isabelle
  imports Main "HOL-Library.Sublist" "HOL-Library.Log_Nat"
begin

section \<open>Python primitives used by the metrics and rate-limit code\<close>

text \<open>
  Python floats are modelled by the rational number they denote (\<open>rat\<close>); the properties
  below depend on comparisons and on values that are copied, sorted and rounded for
  display.  Python integers are \<open>int\<close>.  A \<open>str\<close> is a \<open>string\<close>, one \<open>char\<close> per
  code point, for text in the Latin-1 range.  ISO timestamps are opaque strings.
\<close>

type_synonym timestamp = string

text \<open>\<open>xs[-n:]\<close> for a positive \<open>n\<close>: the last \<open>n\<close> elements, all of \<open>xs\<close> when it is shorter.\<close>

definition slice_last :: "nat \<Rightarrow> 'a list \<Rightarrow> 'a list" where
  "slice_last n xs = drop (length xs - n) xs"

text \<open>\<open>if len(xs) > n: xs = xs[-n:]\<close>, the trimming idiom of every bounded history.\<close>

definition limit_history :: "nat \<Rightarrow> 'a list \<Rightarrow> 'a list" where
  "limit_history n xs = (if length xs > n then slice_last n xs else xs)"

text \<open>\<open>round(x, nd)\<close>: to \<open>nd\<close> decimal places, ties to the even neighbour.\<close>

definition round_half_even :: "rat \<Rightarrow> int" where
  "round_half_even x =
     (let f = \<lfloor>x\<rfloor>; d = x - of_int f
      in if d < 1 / 2 then f else if d > 1 / 2 then f + 1
         else if even f then f else f + 1)"

definition py_round :: "nat \<Rightarrow> rat \<Rightarrow> rat" where
  "py_round nd x = of_int (round_half_even (x * 10 ^ nd)) / 10 ^ nd"

text \<open>
  \<open>int(n * c)\<close> for a list length \<open>n\<close> and a double constant \<open>c = m / 2 ^ 52\<close>: the
  product of two doubles is the exact product rounded to 53 significant bits, ties to
  even (IEEE 754 binary64, no overflow in this range); \<open>int\<close> then truncates.
\<close>

definition round_sig53 :: "int \<Rightarrow> int" where
  "round_sig53 N =
     (let b = bitlen N
      in if b \<le> 53 then N
         else let s = nat (b - 53); q = N div 2 ^ s; r = N mod 2 ^ s; h = 2 ^ (s - 1)
              in (if r > h \<or> (r = h \<and> odd q) then q + 1 else q) * 2 ^ s)"

definition int_of_float_mul :: "nat \<Rightarrow> int \<Rightarrow> nat" where
  "int_of_float_mul n m = nat (round_sig53 (int n * m) div 2 ^ 52)"

text \<open>The doubles written \<open>0.95\<close> and \<open>0.99\<close> are these numerators over \<open>2 ^ 52\<close>.\<close>

definition double_0_95 :: int where
  "double_0_95 = 4278419646001971"

definition double_0_99 :: int where
  "double_0_99 = 4458563631096791"

text \<open>\<open>str.lower()\<close> and the whitespace of \<open>str.split()\<close>, on Latin-1 code points.\<close>

definition lower_char :: "char \<Rightarrow> char" where
  "lower_char c =
     (let n = (of_char c :: nat)
      in if (65 \<le> n \<and> n \<le> 90) \<or> (192 \<le> n \<and> n \<le> 222 \<and> n \<noteq> 215)
         then char_of (n + 32) else c)"

definition lower :: "string \<Rightarrow> string" where
  "lower s = map lower_char s"

definition is_space :: "char \<Rightarrow> bool" where
  "is_space c =
     (let n = (of_char c :: nat)
      in (9 \<le> n \<and> n \<le> 13) \<or> (28 \<le> n \<and> n \<le> 32) \<or> n = 133 \<or> n = 160)"

text \<open>\<open>s.split()\<close>: the maximal runs of non-whitespace; the second argument is the word
  being read.\<close>

fun split_words :: "string \<Rightarrow> string \<Rightarrow> string list" where
  "split_words [] w = (if w = [] then [] else [w])"
| "split_words (c # cs) w =
     (if is_space c then (if w = [] then split_words cs [] else w # split_words cs [])
      else split_words cs (w @ [c]))"

definition py_split :: "string \<Rightarrow> string list" where
  "py_split s = split_words s []"

text \<open>\<open>str(error)\<close> for an optional message: \<open>str(None)\<close> is the text \<open>None\<close>.\<close>

definition str_of :: "string option \<Rightarrow> string" where
  "str_of e = (case e of None \<Rightarrow> ''None'' | Some m \<Rightarrow> m)"

section \<open>AgentMetrics\<close>

record error_entry =
  err_timestamp :: timestamp
  err_error :: string
  err_tools_used :: "string list"
  err_request :: string

record latency_entry =
  lat_timestamp :: timestamp
  lat_latency :: rat
  lat_success :: bool

record precision_entry =
  prec_timestamp :: timestamp
  prec_precision :: rat
  prec_expected :: "string list"
  prec_actual :: "string list"

record resource_entry =
  res_timestamp :: timestamp
  res_cpu_percent :: rat
  res_memory_percent :: rat
  res_memory_used_mb :: rat

record trace_entry =
  tr_timestamp :: timestamp
  tr_request :: string
  tr_response :: string
  tr_tools_used :: "string list"
  tr_latency :: rat
  tr_success :: bool

record consistency_entry =
  cc_timestamp :: timestamp
  cc_query :: string
  cc_response :: string
  cc_similar_previous :: int

text \<open>The \<open>metrics\<close> dictionary of \<open>AgentMetrics\<close>: \<open>tool_calls\<close> is the
  \<open>defaultdict(int)\<close>, kept in insertion order.\<close>

record metrics =
  total_requests :: int
  successful_requests :: int
  failed_requests :: int
  total_latency :: rat
  tool_calls :: "(string \<times> int) list"
  errors :: "error_entry list"
  latency_history :: "latency_entry list"
  precision_scores :: "precision_entry list"
  resource_usage :: "resource_entry list"
  execution_traces :: "trace_entry list"
  consistency_checks :: "consistency_entry list"

definition init_metrics :: metrics where
  "init_metrics =
     \<lparr>total_requests = 0, successful_requests = 0, failed_requests = 0, total_latency = 0,
      tool_calls = [], errors = [], latency_history = [], precision_scores = [],
      resource_usage = [], execution_traces = [], consistency_checks = []\<rparr>"

text \<open>\<open>tool_calls[tool] += 1\<close> on the defaultdict.\<close>

fun bump_tool :: "string \<Rightarrow> (string \<times> int) list \<Rightarrow> (string \<times> int) list" where
  "bump_tool k [] = [(k, 1)]"
| "bump_tool k ((k', v) # kvs) =
     (if k = k' then (k', v + 1) # kvs else (k', v) # bump_tool k kvs)"

text \<open>What \<open>psutil\<close> reports at one sampling: the time of the sample, the CPU percentage,
  the memory percentage and the bytes of memory in use.\<close>

record psutil_sample =
  ps_timestamp :: timestamp
  ps_cpu_percent :: rat
  ps_memory_percent :: rat
  ps_memory_used :: int

text \<open>\<open>_record_resource_usage\<close>: \<open>None\<close> stands for \<open>psutil\<close> raising, which the
  \<open>except\<close> branch logs and drops.\<close>

definition record_resource_usage :: "psutil_sample option \<Rightarrow> metrics \<Rightarrow> metrics" where
  "record_resource_usage sample m =
     (case sample of
        None \<Rightarrow> m
      | Some p \<Rightarrow>
          m\<lparr>resource_usage :=
              limit_history 50
                (resource_usage m @
                 [\<lparr>res_timestamp = ps_timestamp p, res_cpu_percent = ps_cpu_percent p,
                   res_memory_percent = ps_memory_percent p,
                   res_memory_used_mb = of_int (ps_memory_used p) / (1024 * 1024)\<rparr>])\<rparr>)"

definition record_request ::
  "metrics \<Rightarrow> timestamp \<Rightarrow> psutil_sample option \<Rightarrow> bool \<Rightarrow> rat \<Rightarrow> string list \<Rightarrow>
   string option \<Rightarrow> string \<Rightarrow> metrics" where
  "record_request m ts sample success latency tools_used error request_text =
     (let m1 = m\<lparr>total_requests := total_requests m + 1\<rparr>;
          m2 = (if success then m1\<lparr>successful_requests := successful_requests m1 + 1\<rparr>
                else m1\<lparr>failed_requests := failed_requests m1 + 1,
                        errors := errors m1 @
                          [\<lparr>err_timestamp = ts, err_error = str_of error,
                            err_tools_used = tools_used,
                            err_request = take 200 request_text\<rparr>]\<rparr>);
          m3 = m2\<lparr>total_latency := total_latency m2 + latency,
                  latency_history :=
                    limit_history 100
                      (latency_history m2 @
                       [\<lparr>lat_timestamp = ts, lat_latency = latency, lat_success = success\<rparr>])\<rparr>;
          m4 = m3\<lparr>tool_calls := fold bump_tool tools_used (tool_calls m3)\<rparr>
      in record_resource_usage sample m4)"

definition record_trace ::
  "metrics \<Rightarrow> timestamp \<Rightarrow> string \<Rightarrow> string \<Rightarrow> string list \<Rightarrow> rat \<Rightarrow> bool \<Rightarrow> metrics" where
  "record_trace m ts request response tools_used latency success =
     m\<lparr>execution_traces :=
         limit_history 50
           (execution_traces m @
            [\<lparr>tr_timestamp = ts, tr_request = take 300 request,
              tr_response = take 500 response, tr_tools_used = tools_used,
              tr_latency = latency, tr_success = success\<rparr>])\<rparr>"

text \<open>\<open>calculate_precision\<close> returns the score and the updated metrics.\<close>

definition calculate_precision ::
  "metrics \<Rightarrow> timestamp \<Rightarrow> string list \<Rightarrow> string list \<Rightarrow> rat \<times> metrics" where
  "calculate_precision m ts expected_tools actual_tools =
     (if expected_tools = [] then (1, m)
      else
        let correct = card (set expected_tools \<inter> set actual_tools);
            total = card (set expected_tools \<union> set actual_tools);
            precision = (if total > 0 then of_nat correct / of_nat total else 0)
        in (precision,
            m\<lparr>precision_scores :=
                limit_history 50
                  (precision_scores m @
                   [\<lparr>prec_timestamp = ts, prec_precision = precision,
                     prec_expected = expected_tools, prec_actual = actual_tools\<rparr>])\<rparr>))"

definition similarity :: "string \<Rightarrow> string \<Rightarrow> rat" where
  "similarity str1 str2 =
     (let words1 = set (py_split str1); words2 = set (py_split str2)
      in if words1 = {} \<or> words2 = {} then 0
         else
           let intersection = card (words1 \<inter> words2); union = card (words1 \<union> words2)
           in if union > 0 then of_nat intersection / of_nat union else 0)"

definition check_consistency :: "metrics \<Rightarrow> timestamp \<Rightarrow> string \<Rightarrow> string \<Rightarrow> metrics" where
  "check_consistency m ts query response =
     (let similar_count =
            int (length (filter (\<lambda>check. similarity (lower query) (lower (cc_query check)) > 7 / 10)
                           (consistency_checks m)))
      in m\<lparr>consistency_checks :=
             limit_history 30
               (consistency_checks m @
                [\<lparr>cc_timestamp = ts, cc_query = take 200 query,
                  cc_response = take 200 response,
                  cc_similar_previous = similar_count\<rparr>])\<rparr>)"

text \<open>The dictionary that \<open>get_summary\<close> returns.\<close>

record summary =
  s_total_requests :: int
  s_successful_requests :: int
  s_failed_requests :: int
  s_success_rate :: rat
  s_error_rate :: rat
  s_avg_latency :: rat
  s_p95_latency :: rat
  s_p99_latency :: rat
  s_latency_history :: "latency_entry list"
  s_avg_precision :: rat
  s_precision_history :: "precision_entry list"
  s_tool_usage :: "(string \<times> int) list"
  s_total_tool_calls :: int
  s_recent_errors :: "error_entry list"
  s_error_count :: int
  s_avg_cpu_percent :: rat
  s_avg_memory_percent :: rat
  s_resource_usage :: "resource_entry list"
  s_execution_traces :: "trace_entry list"
  s_consistency_checks :: int
  s_generated_at :: timestamp

text \<open>\<open>xs[idx] if idx < len(xs) else xs[-1]\<close>, on a non-empty list.\<close>

definition percentile_at :: "rat list \<Rightarrow> nat \<Rightarrow> rat" where
  "percentile_at xs idx = (if idx < length xs then xs ! idx else last xs)"

definition get_summary :: "metrics \<Rightarrow> timestamp \<Rightarrow> summary" where
  "get_summary m generated =
     (let avg_latency = (if total_requests m > 0
                         then total_latency m / of_int (total_requests m) else 0);
          success_rate = (if total_requests m > 0
                          then of_int (successful_requests m) / of_int (total_requests m) * 100
                          else 0);
          error_rate = (if total_requests m > 0
                        then of_int (failed_requests m) / of_int (total_requests m) * 100
                        else 0);
          avg_precision = (if precision_scores m \<noteq> []
                           then sum_list (map prec_precision (precision_scores m)) /
                                of_nat (length (precision_scores m))
                           else 0);
          latencies = map lat_latency (latency_history m);
          sorted_latencies = sort latencies;
          p95_idx = int_of_float_mul (length sorted_latencies) double_0_95;
          p99_idx = int_of_float_mul (length sorted_latencies) double_0_99;
          p95_latency = (if latencies \<noteq> [] then percentile_at sorted_latencies p95_idx else 0);
          p99_latency = (if latencies \<noteq> [] then percentile_at sorted_latencies p99_idx else 0);
          avg_cpu = (if resource_usage m \<noteq> []
                     then sum_list (map res_cpu_percent (resource_usage m)) /
                          of_nat (length (resource_usage m))
                     else 0);
          avg_memory = (if resource_usage m \<noteq> []
                        then sum_list (map res_memory_percent (resource_usage m)) /
                             of_nat (length (resource_usage m))
                        else 0)
      in \<lparr>s_total_requests = total_requests m,
          s_successful_requests = successful_requests m,
          s_failed_requests = failed_requests m,
          s_success_rate = py_round 2 success_rate,
          s_error_rate = py_round 2 error_rate,
          s_avg_latency = py_round 3 avg_latency,
          s_p95_latency = py_round 3 p95_latency,
          s_p99_latency = py_round 3 p99_latency,
          s_latency_history = slice_last 30 (latency_history m),
          s_avg_precision = py_round 3 avg_precision,
          s_precision_history = slice_last 20 (precision_scores m),
          s_tool_usage = tool_calls m,
          s_total_tool_calls = sum_list (map snd (tool_calls m)),
          s_recent_errors = slice_last 10 (errors m),
          s_error_count = int (length (errors m)),
          s_avg_cpu_percent = py_round 2 avg_cpu,
          s_avg_memory_percent = py_round 2 avg_memory,
          s_resource_usage = slice_last 20 (resource_usage m),
          s_execution_traces = slice_last 10 (execution_traces m),
          s_consistency_checks = int (length (consistency_checks m)),
          s_generated_at = generated\<rparr>)"

text \<open>One call of the public recording interface, and a run of calls from a state.\<close>

datatype call =
    RecordRequest timestamp "psutil_sample option" bool rat "string list" "string option" string
  | RecordTrace timestamp string string "string list" rat bool
  | CalculatePrecision timestamp "string list" "string list"
  | CheckConsistency timestamp string string

fun apply_call :: "metrics \<Rightarrow> call \<Rightarrow> metrics" where
  "apply_call m (RecordRequest ts sample success latency tools error request_text) =
     record_request m ts sample success latency tools error request_text"
| "apply_call m (RecordTrace ts request response tools latency success) =
     record_trace m ts request response tools latency success"
| "apply_call m (CalculatePrecision ts expected actual) =
     snd (calculate_precision m ts expected actual)"
| "apply_call m (CheckConsistency ts query response) = check_consistency m ts query response"

definition run_calls :: "metrics \<Rightarrow> call list \<Rightarrow> metrics" where
  "run_calls m cs = foldl apply_call m cs"

text \<open>A request that \<open>record_request\<close> counts as failed.\<close>

fun is_failure :: "call \<Rightarrow> bool" where
  "is_failure (RecordRequest ts sample success latency tools error request_text) = (\<not> success)"
| "is_failure _ = False"

text \<open>
  One step of a bounded history keeps the tail: the list is left alone, or it is the end
  of the old list followed by one new entry, as long as the capacity allows.
\<close>

definition keeps_tail :: "nat \<Rightarrow> 'a list \<Rightarrow> 'a list \<Rightarrow> bool" where
  "keeps_tail cap old new \<longleftrightarrow>
     new = old \<or> (\<exists>e. suffix new (old @ [e]) \<and> length new = min cap (length old + 1))"

definition within_capacity :: "metrics \<Rightarrow> bool" where
  "within_capacity m \<longleftrightarrow>
     length (latency_history m) \<le> 100 \<and> length (precision_scores m) \<le> 50 \<and>
     length (resource_usage m) \<le> 50 \<and> length (execution_traces m) \<le> 50 \<and>
     length (consistency_checks m) \<le> 30"

section \<open>SecurityManager and the rate limiter\<close>

text \<open>
  A \<open>datetime\<close> is its number of microseconds, a \<open>timedelta\<close> of \<open>n\<close> seconds is
  \<open>n * 1000000\<close>.  Python lists are objects: \<open>rate_limit_storage\<close> maps a client to a
  reference, \<open>lists\<close> holds the list each reference points to, and \<open>next_ref\<close> is the
  next unused reference.  Two names bound to one reference see each other's \<open>append\<close>.
  The API key fields of \<open>SecurityManager\<close> play no part in rate limiting and are left out.
\<close>

record security_event =
  ev_timestamp :: timestamp
  ev_type :: string
  ev_details :: string
  ev_ip :: string

record security_manager =
  rate_limit_storage :: "string \<rightharpoonup> nat"
  lists :: "nat \<Rightarrow> int list"
  next_ref :: nat
  security_log :: "security_event list"

definition init_security_manager :: security_manager where
  "init_security_manager =
     \<lparr>rate_limit_storage = Map.empty, lists = (\<lambda>r. []), next_ref = 0, security_log = []\<rparr>"

text \<open>A new list object holding \<open>xs\<close>: its reference and the updated store.\<close>

definition new_list :: "security_manager \<Rightarrow> int list \<Rightarrow> nat \<times> security_manager" where
  "new_list sm xs =
     (next_ref sm, sm\<lparr>lists := (lists sm)(next_ref sm := xs), next_ref := next_ref sm + 1\<rparr>)"

text \<open>\<open>lst.append(x)\<close> on the object behind a reference.\<close>

definition list_append :: "security_manager \<Rightarrow> nat \<Rightarrow> int \<Rightarrow> security_manager" where
  "list_append sm r x = sm\<lparr>lists := (lists sm)(r := lists sm r @ [x])\<rparr>"

text \<open>The timestamps stored for a client (none for an unknown client).\<close>

definition stored_timestamps :: "security_manager \<Rightarrow> string \<Rightarrow> int list" where
  "stored_timestamps sm ip =
     (case rate_limit_storage sm ip of None \<Rightarrow> [] | Some r \<Rightarrow> lists sm r)"

text \<open>\<open>s.split(sep)\<close> for a one-character separator, and \<open>sep.join(parts)\<close>.\<close>

fun split_on :: "char \<Rightarrow> string \<Rightarrow> string list" where
  "split_on c [] = [[]]"
| "split_on c (x # xs) =
     (if x = c then [] # split_on c xs
      else (case split_on c xs of [] \<Rightarrow> [[x]] | w # ws \<Rightarrow> (x # w) # ws))"

fun join :: "string \<Rightarrow> string list \<Rightarrow> string" where
  "join sep [] = []"
| "join sep [w] = w"
| "join sep (w # ws) = w @ sep @ join sep ws"

definition anonymize_ip :: "string \<Rightarrow> string" where
  "anonymize_ip ip =
     (if CHR '':'' \<in> set ip then join '':'' (take 4 (split_on CHR '':'' ip)) @ '':****''
      else join ''.'' (take 2 (split_on CHR ''.'' ip)) @ ''.***'')"

definition log_security_event ::
  "security_manager \<Rightarrow> timestamp \<Rightarrow> string \<Rightarrow> string \<Rightarrow> string \<Rightarrow> security_manager" where
  "log_security_event sm ts event_type details ip_address =
     sm\<lparr>security_log :=
          limit_history 1000
            (security_log sm @
             [\<lparr>ev_timestamp = ts, ev_type = event_type, ev_details = details,
               ev_ip = anonymize_ip ip_address\<rparr>])\<rparr>"

text \<open>Decimal text of an integer, as an f-string prints it.\<close>

function show_nat :: "nat \<Rightarrow> string" where
  "show_nat n =
     (if n < 10 then [char_of (48 + n)] else show_nat (n div 10) @ [char_of (48 + n mod 10)])"
  by pat_completeness auto
termination
  by (relation "measure id") auto

definition show_int :: "int \<Rightarrow> string" where
  "show_int i = (if i < 0 then CHR ''-'' # show_nat (nat (- i)) else show_nat (nat i))"

text \<open>
  \<open>check_rate_limit\<close>, with the clock reading \<open>now\<close> and the time \<open>log_ts\<close> of the
  audit event as arguments.  \<open>recent_requests\<close> is the reference of the list that the
  comprehension builds; the same reference is stored for the client, so the \<open>append\<close>
  through the storage is seen by the \<open>len(recent_requests)\<close> that follows it.
\<close>

definition check_rate_limit ::
  "security_manager \<Rightarrow> string \<Rightarrow> int \<Rightarrow> int \<Rightarrow> int \<Rightarrow> timestamp \<Rightarrow>
   (bool \<times> int) \<times> security_manager" where
  "check_rate_limit sm ip_address max_requests window_seconds now log_ts =
     (let cutoff = now - window_seconds * 1000000;
          (stored, sm1) =
            (case rate_limit_storage sm ip_address of
               Some r \<Rightarrow> (r, sm)
             | None \<Rightarrow>
                 let (r, s) = new_list sm []
                 in (r, s\<lparr>rate_limit_storage := (rate_limit_storage s)(ip_address \<mapsto> r)\<rparr>));
          (recent_requests, sm2) = new_list sm1 (filter (\<lambda>ts. ts > cutoff) (lists sm1 stored));
          sm3 = sm2\<lparr>rate_limit_storage := (rate_limit_storage sm2)(ip_address \<mapsto> recent_requests)\<rparr>
      in if int (length (lists sm3 recent_requests)) \<ge> max_requests
         then ((False, 0),
               log_security_event sm3 log_ts ''rate_limit_exceeded''
                 (''IP excedi'' @ [char_of (243 :: nat)] @ '' '' @ show_int max_requests @
                  '' peticiones en '' @ show_int window_seconds @ ''s'')
                 ip_address)
         else
           let sm4 = list_append sm3 recent_requests now;
               remaining = max_requests - int (length (lists sm4 recent_requests)) - 1
           in ((True, remaining), sm4))"

text \<open>A request to the limiter with the defaults \<open>max_requests = 20\<close> and
  \<open>window_seconds = 60\<close>: the client, the clock reading and the audit time.\<close>

type_synonym limiter_call = "string \<times> int \<times> timestamp"

definition limiter_step :: "security_manager \<Rightarrow> limiter_call \<Rightarrow> security_manager" where
  "limiter_step sm c = (case c of (ip, now, log_ts) \<Rightarrow> snd (check_rate_limit sm ip 20 60 now log_ts))"

definition run_limiter :: "security_manager \<Rightarrow> limiter_call list \<Rightarrow> security_manager" where
  "run_limiter sm cs = foldl limiter_step sm cs"

text \<open>The answers of successive calls for one client at the given clock readings.\<close>

fun limiter_answers :: "security_manager \<Rightarrow> string \<Rightarrow> int list \<Rightarrow> (bool \<times> int) list" where
  "limiter_answers sm ip [] = []"
| "limiter_answers sm ip (now # rest) =
     (case check_rate_limit sm ip 20 60 now [] of
        (answer, sm') \<Rightarrow> answer # limiter_answers sm' ip rest)"

text \<open>Every stored list is an allocated object of at most 20 timestamps.\<close>

definition limiter_inv :: "security_manager \<Rightarrow> bool" where
  "limiter_inv sm \<longleftrightarrow>
     (\<forall>ip r. rate_limit_storage sm ip = Some r \<longrightarrow> r < next_ref sm \<and> length (lists sm r) \<le> 20)"

text \<open>A manager whose only client has used the whole quota of the current window.\<close>

definition full_manager :: security_manager where
  "full_manager =
     \<lparr>rate_limit_storage = [''10.0.0.1'' \<mapsto> 0], lists = (\<lambda>r. replicate 20 5000000),
      next_ref = 1, security_log = []\<rparr>"

text \<open>The metrics after one successful request of the given latency, with no
  resource sample.\<close>

definition one_request :: "rat \<Rightarrow> metrics" where
  "one_request latency = record_request init_metrics ''t'' None True latency [] None ''hola''"

section \<open>Bounded histories\<close>

lemma length_limit_history_snoc:
  "length xs \<le> n \<Longrightarrow> length (limit_history n (xs @ [x])) \<le> n"
  by (auto simp add: limit_history_def slice_last_def)

lemma keeps_tail_limit_history: "keeps_tail n xs (limit_history n (xs @ [x]))"
proof -
  have "suffix (limit_history n ys) ys" for ys :: "'a list"
    by (simp add: limit_history_def slice_last_def suffix_drop)
  then have "suffix (limit_history n (xs @ [x])) (xs @ [x])" .
  moreover have "length (limit_history n (xs @ [x])) = min n (length xs + 1)"
    by (auto simp add: limit_history_def slice_last_def)
  ultimately show ?thesis
    unfolding keeps_tail_def by blast
qed

lemma keeps_tail_refl: "keeps_tail n xs xs"
  by (simp add: keeps_tail_def)

lemma record_resource_usage_fields:
  "total_requests (record_resource_usage p m) = total_requests m"
  "successful_requests (record_resource_usage p m) = successful_requests m"
  "failed_requests (record_resource_usage p m) = failed_requests m"
  "errors (record_resource_usage p m) = errors m"
  "latency_history (record_resource_usage p m) = latency_history m"
  "precision_scores (record_resource_usage p m) = precision_scores m"
  "execution_traces (record_resource_usage p m) = execution_traces m"
  "consistency_checks (record_resource_usage p m) = consistency_checks m"
  by (simp_all add: record_resource_usage_def split: option.splits)

lemma record_resource_usage_list:
  "resource_usage (record_resource_usage p m) = resource_usage m \<or>
   (\<exists>e. resource_usage (record_resource_usage p m) = limit_history 50 (resource_usage m @ [e]))"
  by (cases p) (auto simp add: record_resource_usage_def)

lemma record_request_fields:
  "total_requests (record_request m ts p ok l tools e rtext) = total_requests m + 1"
  "successful_requests (record_request m ts p ok l tools e rtext) =
     successful_requests m + (if ok then 1 else 0)"
  "failed_requests (record_request m ts p ok l tools e rtext) =
     failed_requests m + (if ok then 0 else 1)"
  "latency_history (record_request m ts p ok l tools e rtext) =
     limit_history 100 (latency_history m @
       [\<lparr>lat_timestamp = ts, lat_latency = l, lat_success = ok\<rparr>])"
  "errors (record_request m ts p ok l tools e rtext) =
     (if ok then errors m
      else errors m @ [\<lparr>err_timestamp = ts, err_error = str_of e, err_tools_used = tools,
                         err_request = take 200 rtext\<rparr>])"
  "precision_scores (record_request m ts p ok l tools e rtext) = precision_scores m"
  "execution_traces (record_request m ts p ok l tools e rtext) = execution_traces m"
  "consistency_checks (record_request m ts p ok l tools e rtext) = consistency_checks m"
  by (simp_all add: record_request_def Let_def record_resource_usage_fields)

lemma record_request_resource:
  "resource_usage (record_request m ts p ok l tools e rtext) = resource_usage m \<or>
   (\<exists>x. resource_usage (record_request m ts p ok l tools e rtext) =
          limit_history 50 (resource_usage m @ [x]))"
proof -
  let ?m4 = "(let m1 = m\<lparr>total_requests := total_requests m + 1\<rparr>;
          m2 = (if ok then m1\<lparr>successful_requests := successful_requests m1 + 1\<rparr>
                else m1\<lparr>failed_requests := failed_requests m1 + 1,
                        errors := errors m1 @
                          [\<lparr>err_timestamp = ts, err_error = str_of e,
                            err_tools_used = tools,
                            err_request = take 200 rtext\<rparr>]\<rparr>);
          m3 = m2\<lparr>total_latency := total_latency m2 + l,
                  latency_history :=
                    limit_history 100
                      (latency_history m2 @
                       [\<lparr>lat_timestamp = ts, lat_latency = l, lat_success = ok\<rparr>])\<rparr>
      in m3\<lparr>tool_calls := fold bump_tool tools (tool_calls m3)\<rparr>)"
  have eq: "record_request m ts p ok l tools e rtext = record_resource_usage p ?m4"
    by (simp add: record_request_def Let_def)
  have ru: "resource_usage ?m4 = resource_usage m"
    by (simp add: Let_def)
  show ?thesis
    using record_resource_usage_list [of p ?m4] unfolding eq ru .
qed

lemma within_capacity_record_request:
  assumes "within_capacity m"
  shows "within_capacity (record_request m ts p ok l tools e rtext)"
  using assms record_request_resource [of m ts p ok l tools e rtext]
  by (auto simp add: within_capacity_def record_request_fields length_limit_history_snoc)

lemma within_capacity_apply_call:
  assumes "within_capacity m"
  shows "within_capacity (apply_call m c)"
proof (cases c)
  case (RecordRequest ts p ok l tools e rtext)
  then show ?thesis using assms by (simp add: within_capacity_record_request)
next
  case (RecordTrace ts rq rs tools l ok)
  then show ?thesis using assms
    by (simp add: within_capacity_def record_trace_def length_limit_history_snoc)
next
  case (CalculatePrecision ts ex ac)
  then show ?thesis using assms
    by (simp add: within_capacity_def calculate_precision_def Let_def length_limit_history_snoc)
next
  case (CheckConsistency ts q r)
  then show ?thesis using assms
    by (simp add: within_capacity_def check_consistency_def Let_def length_limit_history_snoc)
qed

lemma within_capacity_run_calls:
  "within_capacity m \<Longrightarrow> within_capacity (run_calls m cs)"
  unfolding run_calls_def
  by (induction cs arbitrary: m) (simp_all add: within_capacity_apply_call)

lemma within_capacity_init: "within_capacity init_metrics"
  by (simp add: within_capacity_def init_metrics_def)

lemma keeps_tail_apply_call:
  "keeps_tail 100 (latency_history m) (latency_history (apply_call m c))"
  "keeps_tail 50 (precision_scores m) (precision_scores (apply_call m c))"
  "keeps_tail 50 (resource_usage m) (resource_usage (apply_call m c))"
  "keeps_tail 50 (execution_traces m) (execution_traces (apply_call m c))"
  "keeps_tail 30 (consistency_checks m) (consistency_checks (apply_call m c))"
proof -
  show "keeps_tail 100 (latency_history m) (latency_history (apply_call m c))"
    by (cases c) (simp_all add: record_request_fields record_trace_def calculate_precision_def
        check_consistency_def Let_def keeps_tail_limit_history keeps_tail_refl)
  show "keeps_tail 50 (precision_scores m) (precision_scores (apply_call m c))"
    by (cases c) (simp_all add: record_request_fields record_trace_def calculate_precision_def
        check_consistency_def Let_def keeps_tail_limit_history keeps_tail_refl)
  show "keeps_tail 50 (execution_traces m) (execution_traces (apply_call m c))"
    by (cases c) (simp_all add: record_request_fields record_trace_def calculate_precision_def
        check_consistency_def Let_def keeps_tail_limit_history keeps_tail_refl)
  show "keeps_tail 30 (consistency_checks m) (consistency_checks (apply_call m c))"
    by (cases c) (simp_all add: record_request_fields record_trace_def calculate_precision_def
        check_consistency_def Let_def keeps_tail_limit_history keeps_tail_refl)
  show "keeps_tail 50 (resource_usage m) (resource_usage (apply_call m c))"
  proof (cases c)
    case (RecordRequest ts p ok l tools e rtext)
    then show ?thesis
      using record_request_resource [of m ts p ok l tools e rtext]
      by (auto simp add: keeps_tail_limit_history keeps_tail_refl)
  qed (simp_all add: record_trace_def calculate_precision_def
        check_consistency_def Let_def keeps_tail_refl)
qed

text \<open>
  Claim C1.  After any sequence of \<open>record_request\<close>, \<open>record_trace\<close>,
  \<open>calculate_precision\<close> and \<open>check_consistency\<close> calls from the initial state, the
  latency history holds at most 100 entries, the precision scores, resource samples and
  execution traces at most 50 each, and the consistency checks at most 30.  Every call, in
  every state, leaves each of these lists alone or makes it the tail of the old list
  followed by the new entry: what is dropped is dropped from the front.
\<close>

theorem bounded_histories_keep_tail:
  "length (latency_history (run_calls init_metrics cs)) \<le> 100 \<and>
   length (precision_scores (run_calls init_metrics cs)) \<le> 50 \<and>
   length (resource_usage (run_calls init_metrics cs)) \<le> 50 \<and>
   length (execution_traces (run_calls init_metrics cs)) \<le> 50 \<and>
   length (consistency_checks (run_calls init_metrics cs)) \<le> 30 \<and>
   keeps_tail 100 (latency_history m) (latency_history (apply_call m c)) \<and>
   keeps_tail 50 (precision_scores m) (precision_scores (apply_call m c)) \<and>
   keeps_tail 50 (resource_usage m) (resource_usage (apply_call m c)) \<and>
   keeps_tail 50 (execution_traces m) (execution_traces (apply_call m c)) \<and>
   keeps_tail 30 (consistency_checks m) (consistency_checks (apply_call m c))"
  using within_capacity_run_calls [OF within_capacity_init, of cs] keeps_tail_apply_call [of m c]
  unfolding within_capacity_def by blast

section \<open>The rate limiter\<close>

lemmas limiter_defs = check_rate_limit_def new_list_def list_append_def stored_timestamps_def
  log_security_event_def Let_def

lemma check_rate_limit_answer:
  "fst (check_rate_limit sm ip mx w now lt) =
     (let recent = filter (\<lambda>ts. ts > now - w * 1000000) (stored_timestamps sm ip)
      in if int (length recent) \<ge> mx then (False, 0)
         else (True, mx - int (length recent) - 2))"
  by (simp add: limiter_defs split: option.splits)

lemma check_rate_limit_stored:
  "stored_timestamps (snd (check_rate_limit sm ip mx w now lt)) ip =
     (let recent = filter (\<lambda>ts. ts > now - w * 1000000) (stored_timestamps sm ip)
      in if int (length recent) \<ge> mx then recent else recent @ [now])"
  by (simp add: limiter_defs split: option.splits)

lemma check_rate_limit_other:
  assumes "ip' \<noteq> ip" and "\<And>r. rate_limit_storage sm ip' = Some r \<Longrightarrow> r < next_ref sm"
  shows "stored_timestamps (snd (check_rate_limit sm ip mx w now lt)) ip' =
         stored_timestamps sm ip'"
  using assms by (auto simp add: limiter_defs split: option.splits)

lemma check_rate_limit_refs:
  assumes "\<And>ip' r. rate_limit_storage sm ip' = Some r \<Longrightarrow> r < next_ref sm"
    and "rate_limit_storage (snd (check_rate_limit sm ip mx w now lt)) ip' = Some r"
  shows "r < next_ref (snd (check_rate_limit sm ip mx w now lt))"
  using assms by (fastforce simp add: limiter_defs split: option.splits if_splits)

lemma limiter_inv_iff:
  "limiter_inv sm \<longleftrightarrow>
     (\<forall>ip r. rate_limit_storage sm ip = Some r \<longrightarrow> r < next_ref sm) \<and>
     (\<forall>ip. length (stored_timestamps sm ip) \<le> 20)"
  unfolding limiter_inv_def stored_timestamps_def
  by (auto split: option.splits) 

lemma limiter_inv_init: "limiter_inv init_security_manager"
  by (simp add: limiter_inv_def init_security_manager_def)

lemma limiter_inv_check_rate_limit:
  assumes "limiter_inv sm"
  shows "limiter_inv (snd (check_rate_limit sm ip 20 60 now lt))"
proof -
  let ?sm' = "snd (check_rate_limit sm ip 20 60 now lt)"
  have refs: "\<And>ip' r. rate_limit_storage sm ip' = Some r \<Longrightarrow> r < next_ref sm"
    and lens: "\<And>ip'. length (stored_timestamps sm ip') \<le> 20"
    using assms by (auto simp add: limiter_inv_iff)
  have "r < next_ref ?sm'" if "rate_limit_storage ?sm' ip' = Some r" for ip' r
    using check_rate_limit_refs [OF refs that] by simp
  moreover have "length (stored_timestamps ?sm' ip') \<le> 20" for ip'
  proof (cases "ip' = ip")
    case True
    have "length (filter (\<lambda>ts. ts > now - 60 * 1000000) (stored_timestamps sm ip)) \<le> 20"
      using lens [of ip] length_filter_le le_trans by blast
    then show ?thesis
      unfolding True check_rate_limit_stored by (auto simp add: Let_def)
  next
    case False
    then show ?thesis
      using check_rate_limit_other [of ip' ip sm 20 60 now lt] refs lens [of ip'] by simp
  qed
  ultimately show ?thesis
    unfolding limiter_inv_iff by blast
qed

lemma limiter_inv_run:
  "limiter_inv sm \<Longrightarrow> limiter_inv (run_limiter sm cs)"
  unfolding run_limiter_def
  by (induction cs arbitrary: sm)
     (simp_all add: limiter_step_def limiter_inv_check_rate_limit split: prod.splits)

lemma full_manager_inv: "limiter_inv full_manager"
  by (simp add: limiter_inv_def full_manager_def)

lemma full_manager_rejects:
  "fst (check_rate_limit full_manager ''10.0.0.1'' 20 60 6000000 ''t'') = (False, 0)"
  by (simp add: check_rate_limit_answer stored_timestamps_def full_manager_def)

lemma stored_init: "stored_timestamps init_security_manager ip = []"
  by (simp add: stored_timestamps_def init_security_manager_def)

lemma limiter_answers_within_window:
  assumes "\<forall>a \<in> set (stored_timestamps sm ip) \<union> set ts. \<forall>b \<in> set ts. a > b - 60 * 1000000"
    and "length (stored_timestamps sm ip) + length ts \<le> 20"
  shows "limiter_answers sm ip ts =
         map (\<lambda>k. (True, 18 - int (length (stored_timestamps sm ip)) - int k)) [0..<length ts]"
  using assms
proof (induction ts arbitrary: sm)
  case Nil
  then show ?case by simp
next
  case (Cons now rest)
  let ?sm' = "snd (check_rate_limit sm ip 20 60 now [])"
  have keep: "filter (\<lambda>ts. ts > now - 60 * 1000000) (stored_timestamps sm ip) = stored_timestamps sm ip"
    using Cons.prems(1) by (auto simp add: filter_id_conv)
  have short: "length (stored_timestamps sm ip) < 20"
    using Cons.prems(2) by simp
  have ans: "fst (check_rate_limit sm ip 20 60 now []) = (True, 18 - int (length (stored_timestamps sm ip)))"
    unfolding check_rate_limit_answer using keep short by (simp add: Let_def)
  have st: "stored_timestamps ?sm' ip = stored_timestamps sm ip @ [now]"
    unfolding check_rate_limit_stored using keep short by (simp add: Let_def)
  have "limiter_answers ?sm' ip rest =
        map (\<lambda>k. (True, 18 - int (length (stored_timestamps ?sm' ip)) - int k)) [0..<length rest]"
    using Cons.prems by (intro Cons.IH) (auto simp add: st)
  then have rest: "limiter_answers ?sm' ip rest =
        map (\<lambda>k. (True, 18 - int (length (stored_timestamps sm ip)) - int (Suc k))) [0..<length rest]"
    by (simp add: st)
  have "limiter_answers sm ip (now # rest) =
        fst (check_rate_limit sm ip 20 60 now []) # limiter_answers ?sm' ip rest"
    by (simp add: case_prod_beta)
  also have "\<dots> = map (\<lambda>k. (True, 18 - int (length (stored_timestamps sm ip)) - int k))
                      [0..<length (now # rest)]"
    unfolding ans rest by (simp add: map_upt_Suc del: upt_Suc)
  finally show ?case .
qed

lemma stored_after_within_window:
  assumes "\<forall>a \<in> set (stored_timestamps sm ip) \<union> set ts. \<forall>b \<in> set ts. a > b - 60 * 1000000"
    and "length (stored_timestamps sm ip) + length ts \<le> 20"
  shows "stored_timestamps (run_limiter sm (map (\<lambda>t. (ip, t, [])) ts)) ip = stored_timestamps sm ip @ ts"
  using assms
proof (induction ts arbitrary: sm)
  case Nil
  then show ?case by (simp add: run_limiter_def)
next
  case (Cons now rest)
  let ?sm' = "snd (check_rate_limit sm ip 20 60 now [])"
  have keep: "filter (\<lambda>ts. ts > now - 60 * 1000000) (stored_timestamps sm ip) = stored_timestamps sm ip"
    using Cons.prems(1) by (auto simp add: filter_id_conv)
  have short: "length (stored_timestamps sm ip) < 20"
    using Cons.prems(2) by simp
  have st: "stored_timestamps ?sm' ip = stored_timestamps sm ip @ [now]"
    unfolding check_rate_limit_stored using keep short by (simp add: Let_def)
  have "stored_timestamps (run_limiter ?sm' (map (\<lambda>t. (ip, t, [])) rest)) ip =
        stored_timestamps ?sm' ip @ rest"
    using Cons.prems by (intro Cons.IH) (auto simp add: st)
  then show ?case
    by (simp add: run_limiter_def limiter_step_def st)
qed

lemma limiter_answers_append:
  "limiter_answers sm ip (xs @ ys) =
   limiter_answers sm ip xs @ limiter_answers (run_limiter sm (map (\<lambda>t. (ip, t, [])) xs)) ip ys"
  by (induction xs arbitrary: sm) (simp_all add: run_limiter_def limiter_step_def case_prod_beta)

text \<open>
  Claim C10.  With \<open>max_requests = 20\<close>, after any sequence of \<open>check_rate_limit\<close>
  calls from the initial manager no client has more than 20 stored timestamps.  A call
  that is refused returns remaining \<open>0\<close>, leaves for its client exactly the stored
  timestamps that are newer than the cutoff, with nothing appended, and leaves the
  timestamps of every other client as they were.
\<close>

theorem rate_limit_storage_bounded:
  "limiter_inv (run_limiter init_security_manager cs) \<and>
   length (stored_timestamps (run_limiter init_security_manager cs) ip) \<le> 20 \<and>
   (limiter_inv sm \<and> fst (fst (check_rate_limit sm ip 20 60 now lt)) = False \<longrightarrow>
      snd (fst (check_rate_limit sm ip 20 60 now lt)) = 0 \<and>
      stored_timestamps (snd (check_rate_limit sm ip 20 60 now lt)) ip =
        filter (\<lambda>ts. ts > now - 60 * 1000000) (stored_timestamps sm ip) \<and>
      (\<forall>ip'. ip' \<noteq> ip \<longrightarrow>
         stored_timestamps (snd (check_rate_limit sm ip 20 60 now lt)) ip' =
         stored_timestamps sm ip'))"
proof -
  have inv: "limiter_inv (run_limiter init_security_manager cs)"
    by (rule limiter_inv_run [OF limiter_inv_init])
  have rej: "snd (fst (check_rate_limit sm ip 20 60 now lt)) = 0 \<and>
      stored_timestamps (snd (check_rate_limit sm ip 20 60 now lt)) ip =
        filter (\<lambda>ts. ts > now - 60 * 1000000) (stored_timestamps sm ip)"
    if "fst (fst (check_rate_limit sm ip 20 60 now lt)) = False"
    using that unfolding check_rate_limit_answer check_rate_limit_stored
    by (simp add: Let_def split: if_splits)
  have other: "stored_timestamps (snd (check_rate_limit sm ip 20 60 now lt)) ip' =
         stored_timestamps sm ip'" if "limiter_inv sm" "ip' \<noteq> ip" for ip'
    using that check_rate_limit_other [of ip' ip sm 20 60 now lt]
    by (simp add: limiter_inv_iff)
  show ?thesis
    using inv rej other by (simp add: limiter_inv_iff)
qed

theorem rate_limit_storage_bounded_witness:
  "limiter_inv full_manager \<and>
   fst (fst (check_rate_limit full_manager ''10.0.0.1'' 20 60 6000000 ''t'')) = False \<and>
   snd (fst (check_rate_limit full_manager ''10.0.0.1'' 20 60 6000000 ''t'')) = 0 \<and>
   length (stored_timestamps (snd (check_rate_limit full_manager ''10.0.0.1'' 20 60 6000000 ''t''))
             ''10.0.0.1'') = 20"
  using rate_limit_storage_bounded [where cs = "[]" and ip = "''10.0.0.1''" and sm = full_manager
      and now = 6000000 and lt = "''t''"] full_manager_inv full_manager_rejects
  by (simp add: stored_timestamps_def full_manager_def)

text \<open>
  Claim C3.  The answers of the code for a new client asked at seconds 0, 1, ..., 19, then
  at second 20, then at second 100: the twenty calls inside the window are allowed with
  remaining 18, 17, ..., 0, -1 (the length is read after the append, through the second
  name of the same list), the twenty-first is refused with remaining 0, and the call
  after the window has passed is allowed again.
\<close>

theorem rate_limit_remaining_off_by_one:
  "limiter_answers init_security_manager ''10.0.0.1''
     [0, 1000000, 2000000, 3000000, 4000000, 5000000, 6000000, 7000000, 8000000, 9000000, 10000000, 11000000, 12000000, 13000000, 14000000, 15000000, 16000000, 17000000, 18000000, 19000000, 20000000, 100000000] =
   [(True, 18), (True, 17), (True, 16), (True, 15), (True, 14), (True, 13), (True, 12), (True, 11), (True, 10), (True, 9), (True, 8), (True, 7), (True, 6), (True, 5), (True, 4), (True, 3), (True, 2), (True, 1), (True, 0), (True, -1), (False, 0), (True, 18)]"
proof -
  let ?ts = "[0, 1000000, 2000000, 3000000, 4000000, 5000000, 6000000, 7000000, 8000000, 9000000, 10000000, 11000000, 12000000, 13000000, 14000000, 15000000, 16000000, 17000000, 18000000, 19000000] :: int list"
  let ?ip = "''10.0.0.1''"
  let ?sm = "run_limiter init_security_manager (map (\<lambda>t. (?ip, t, [])) ?ts)"
  let ?sm' = "snd (check_rate_limit ?sm ?ip 20 60 20000000 [])"
  have win: "\<forall>a \<in> set (stored_timestamps init_security_manager ?ip) \<union> set ?ts.
               \<forall>b \<in> set ?ts. a > b - 60 * 1000000"
    by (simp add: stored_init)
  have len: "length (stored_timestamps init_security_manager ?ip) + length ?ts \<le> 20"
    by (simp add: stored_init)
  have first: "limiter_answers init_security_manager ?ip ?ts = [(True, 18), (True, 17), (True, 16), (True, 15), (True, 14), (True, 13), (True, 12), (True, 11), (True, 10), (True, 9), (True, 8), (True, 7), (True, 6), (True, 5), (True, 4), (True, 3), (True, 2), (True, 1), (True, 0), (True, -1)]"
    unfolding limiter_answers_within_window [OF win len] by (simp add: stored_init upt_rec)
  have st: "stored_timestamps ?sm ?ip = ?ts"
    unfolding stored_after_within_window [OF win len] by (simp add: stored_init)
  have a21: "fst (check_rate_limit ?sm ?ip 20 60 20000000 []) = (False, 0)"
    unfolding check_rate_limit_answer st by simp
  have st': "stored_timestamps ?sm' ?ip = ?ts"
    unfolding check_rate_limit_stored st by simp
  have a22: "fst (check_rate_limit ?sm' ?ip 20 60 100000000 []) = (True, 18)"
    unfolding check_rate_limit_answer st' by simp
  have "limiter_answers init_security_manager ?ip (?ts @ [20000000, 100000000]) =
        limiter_answers init_security_manager ?ip ?ts @ [(False, 0), (True, 18)]"
    unfolding limiter_answers_append using a21 a22 by (simp add: case_prod_beta)
  then show ?thesis
    unfolding first by simp
qed

section \<open>Request counters and errors\<close>

lemma apply_call_counters:
  "total_requests (apply_call m c) - successful_requests (apply_call m c) - failed_requests (apply_call m c)
     = total_requests m - successful_requests m - failed_requests m"
  "total_requests m \<le> total_requests (apply_call m c)"
  "successful_requests m \<le> successful_requests (apply_call m c)"
  "failed_requests m \<le> failed_requests (apply_call m c)"
  by (cases c; simp add: record_request_fields record_trace_def calculate_precision_def
        check_consistency_def Let_def)+

lemma run_calls_counters:
  "total_requests (run_calls m cs) - successful_requests (run_calls m cs) - failed_requests (run_calls m cs)
     = total_requests m - successful_requests m - failed_requests m \<and>
   total_requests m \<le> total_requests (run_calls m cs) \<and>
   successful_requests m \<le> successful_requests (run_calls m cs) \<and>
   failed_requests m \<le> failed_requests (run_calls m cs)"
proof (induction cs arbitrary: m)
  case Nil
  then show ?case by (simp add: run_calls_def)
next
  case (Cons c cs)
  have step: "run_calls m (c # cs) = run_calls (apply_call m c) cs"
    by (simp add: run_calls_def)
  show ?case
    unfolding step using Cons.IH [of "apply_call m c"] apply_call_counters [of m c]
    by linarith
qed

lemma run_calls_append: "run_calls m (cs @ ds) = run_calls (run_calls m cs) ds"
  by (simp add: run_calls_def)

text \<open>
  Claim C2.  After any sequence of calls from the initial state, \<open>total_requests\<close> is
  the sum of \<open>successful_requests\<close> and \<open>failed_requests\<close>, the three counters are not
  negative, and further calls never decrease any of them.
\<close>

theorem request_counters:
  "total_requests (run_calls init_metrics cs) =
     successful_requests (run_calls init_metrics cs) + failed_requests (run_calls init_metrics cs) \<and>
   0 \<le> total_requests (run_calls init_metrics cs) \<and>
   0 \<le> successful_requests (run_calls init_metrics cs) \<and>
   0 \<le> failed_requests (run_calls init_metrics cs) \<and>
   total_requests (run_calls init_metrics cs) \<le> total_requests (run_calls init_metrics (cs @ ds)) \<and>
   successful_requests (run_calls init_metrics cs) \<le>
     successful_requests (run_calls init_metrics (cs @ ds)) \<and>
   failed_requests (run_calls init_metrics cs) \<le> failed_requests (run_calls init_metrics (cs @ ds))"
proof -
  have zero: "total_requests init_metrics = 0" "successful_requests init_metrics = 0"
    "failed_requests init_metrics = 0"
    by (simp_all add: init_metrics_def)
  show ?thesis
    using run_calls_counters [of init_metrics cs] run_calls_counters [of "run_calls init_metrics cs" ds]
    unfolding run_calls_append zero by linarith
qed

lemma errors_apply_call:
  "length (errors (apply_call m c)) = length (errors m) + (if is_failure c then 1 else 0)"
  "failed_requests (apply_call m c) = failed_requests m + (if is_failure c then 1 else 0)"
  "prefix (errors m) (errors (apply_call m c))"
  by (cases c; simp add: record_request_fields record_trace_def calculate_precision_def
        check_consistency_def Let_def)+

lemma errors_run_calls:
  "length (errors (run_calls m cs)) = length (errors m) + length (filter is_failure cs) \<and>
   failed_requests (run_calls m cs) = failed_requests m + int (length (filter is_failure cs))"
proof (induction cs arbitrary: m)
  case Nil
  then show ?case by (simp add: run_calls_def)
next
  case (Cons c cs)
  have step: "run_calls m (c # cs) = run_calls (apply_call m c) cs"
    by (simp add: run_calls_def)
  show ?case
    unfolding step using Cons.IH [of "apply_call m c"] errors_apply_call(1,2) [of m c]
    by simp
qed

lemma summary_errors:
  "s_error_count (get_summary m t) = int (length (errors m))"
  "s_recent_errors (get_summary m t) = slice_last 10 (errors m)"
  by (simp_all add: get_summary_def Let_def)

text \<open>
  Claim C7.  After any sequence of calls from the initial state, the \<open>error_count\<close> of
  the summary is the number of failed requests among the calls, which is also the
  \<open>failed_requests\<close> counter.  No call removes an entry of \<open>errors\<close>: the old list is a
  prefix of the new one.  \<open>recent_errors\<close> is the end of \<open>errors\<close>, of length 10 or of
  the whole list when that is shorter.
\<close>

theorem error_count_cumulative:
  "s_error_count (get_summary (run_calls init_metrics cs) t) = int (length (filter is_failure cs)) \<and>
   s_error_count (get_summary (run_calls init_metrics cs) t) =
     failed_requests (run_calls init_metrics cs) \<and>
   prefix (errors m) (errors (apply_call m c)) \<and>
   suffix (s_recent_errors (get_summary m t)) (errors m) \<and>
   length (s_recent_errors (get_summary m t)) = min 10 (length (errors m))"
proof -
  have "errors init_metrics = []" "failed_requests init_metrics = 0"
    by (simp_all add: init_metrics_def)
  then have "length (errors (run_calls init_metrics cs)) = length (filter is_failure cs)"
    "failed_requests (run_calls init_metrics cs) = int (length (filter is_failure cs))"
    using errors_run_calls [of init_metrics cs] by simp_all
  moreover have "suffix (slice_last 10 (errors m)) (errors m)"
    by (simp add: slice_last_def suffix_drop)
  moreover have "length (slice_last 10 (errors m)) = min 10 (length (errors m))"
    by (simp add: slice_last_def)
  ultimately show ?thesis
    using errors_apply_call(3) [of m c] by (simp add: summary_errors)
qed

section \<open>Precision and consistency\<close>

lemma last_limit_history: "0 < n \<Longrightarrow> last (limit_history n (xs @ [x])) = x"
  by (simp add: limit_history_def slice_last_def)

lemma limit_history_nonempty: "0 < n \<Longrightarrow> limit_history n (xs @ [x]) \<noteq> []"
  by (simp add: limit_history_def slice_last_def)

text \<open>
  Claim C5.  \<open>calculate_precision\<close> returns 1 when \<open>expected_tools\<close> is empty, and
  otherwise the number of tools in both lists divided by the number of tools in either;
  for expected \<open>["a", "b"]\<close> and actual \<open>["a"]\<close> it returns one half.
\<close>

theorem calculate_precision_value:
  "fst (calculate_precision m ts expected actual) =
     (if expected = [] then 1
      else of_nat (card (set expected \<inter> set actual)) / of_nat (card (set expected \<union> set actual))) \<and>
   fst (calculate_precision m ts [''a'', ''b''] [''a'']) = 1 / 2"
proof -
  have pos: "card (set expected \<union> set actual) > 0" if "expected \<noteq> []"
    using that by (simp add: card_gt_0_iff)
  have "fst (calculate_precision m ts expected actual) =
     (if expected = [] then 1
      else of_nat (card (set expected \<inter> set actual)) / of_nat (card (set expected \<union> set actual)))"
    using pos by (simp add: calculate_precision_def Let_def)
  moreover have "set [''a'', ''b''] \<inter> set [''a''] = {''a''}" by auto
  moreover have "set [''a'', ''b''] \<union> set [''a''] = {''a'', ''b''}" by auto
  ultimately show ?thesis
    by (simp add: calculate_precision_def Let_def)
qed

text \<open>
  Claim C6, amended.  When \<open>expected_tools\<close> is not empty, \<open>calculate_precision\<close>
  appends one entry holding the returned score, \<open>expected_tools\<close> and \<open>actual_tools\<close>
  and trims the scores to the last 50, so that the new entry is the last one.  When
  \<open>expected_tools\<close> is empty it returns 1 and leaves the scores as they were.
\<close>

theorem calculate_precision_records:
  "(expected \<noteq> [] \<longrightarrow>
      precision_scores (snd (calculate_precision m ts expected actual)) =
        limit_history 50
          (precision_scores m @
           [\<lparr>prec_timestamp = ts,
             prec_precision = fst (calculate_precision m ts expected actual),
             prec_expected = expected, prec_actual = actual\<rparr>]) \<and>
      last (precision_scores (snd (calculate_precision m ts expected actual))) =
        \<lparr>prec_timestamp = ts, prec_precision = fst (calculate_precision m ts expected actual),
         prec_expected = expected, prec_actual = actual\<rparr>) \<and>
   (expected = [] \<longrightarrow>
      fst (calculate_precision m ts expected actual) = 1 \<and>
      precision_scores (snd (calculate_precision m ts expected actual)) = precision_scores m)"
  by (simp add: calculate_precision_def Let_def last_limit_history)

theorem calculate_precision_records_witness:
  "[''a'', ''b''] \<noteq> ([] :: string list) \<and>
   precision_scores (snd (calculate_precision init_metrics ''t'' [''a'', ''b''] [''a''])) =
     [\<lparr>prec_timestamp = ''t'', prec_precision = 1 / 2,
       prec_expected = [''a'', ''b''], prec_actual = [''a'']\<rparr>] \<and>
   fst (calculate_precision init_metrics ''t'' [] [''a'']) = 1 \<and>
   precision_scores (snd (calculate_precision init_metrics ''t'' [] [''a''])) = []"
proof -
  have i: "set [''a'', ''b''] \<inter> set [''a''] = {''a''}" by auto
  have u: "set [''a'', ''b''] \<union> set [''a''] = {''a'', ''b''}" by auto
  have v: "fst (calculate_precision init_metrics ''t'' [''a'', ''b''] [''a'']) = 1 / 2"
    using i u by (simp add: calculate_precision_def Let_def)
  show ?thesis
    using calculate_precision_records [of "[''a'', ''b'']" init_metrics "''t''" "[''a'']"]
      calculate_precision_records [of "[]" init_metrics "''t''" "[''a'']"]
    unfolding v by (simp add: init_metrics_def limit_history_def)
qed

text \<open>With no expected tools the early \<open>return 1.0\<close> comes before the append: the scores
  are not the old scores with an entry added.\<close>

theorem calculate_precision_empty_counterexample:
  "\<not> (\<exists>e. precision_scores (snd (calculate_precision init_metrics ''t'' [] [''a''])) =
            limit_history 50 (precision_scores init_metrics @ [e]))"
  by (simp add: calculate_precision_def init_metrics_def limit_history_def)

lemma similarity_self:
  assumes "py_split s \<noteq> []"
  shows "similarity s s = 1"
proof -
  have "set (py_split s) \<noteq> {}" using assms by simp
  moreover have "card (set (py_split s)) > 0"
    using assms by (simp add: card_gt_0_iff)
  ultimately show ?thesis
    by (simp add: similarity_def Let_def)
qed

text \<open>
  Claim C8, amended.  For a query of at most 200 characters (the length that is stored)
  that contains at least one word, a second \<open>check_consistency\<close> with the same query
  right after the first records an entry whose \<open>similar_previous\<close> is at least 1.
\<close>

theorem check_consistency_repeat:
  assumes "py_split (lower q) \<noteq> []" and "length q \<le> 200"
  shows "1 \<le> cc_similar_previous
              (last (consistency_checks
                       (check_consistency (check_consistency m t1 q r1) t2 q r2)))"
proof -
  let ?m1 = "check_consistency m t1 q r1"
  let ?hit = "\<lambda>check. similarity (lower q) (lower (cc_query check)) > 7 / 10"
  obtain e where e: "consistency_checks ?m1 = limit_history 30 (consistency_checks m @ [e])"
    and eq: "cc_query e = take 200 q"
    by (simp add: check_consistency_def Let_def)
  have "last (consistency_checks ?m1) = e" "consistency_checks ?m1 \<noteq> []"
    unfolding e by (simp_all add: last_limit_history limit_history_nonempty)
  then have mem: "e \<in> set (consistency_checks ?m1)"
    using last_in_set by metis
  have "?hit e"
    using assms by (simp add: eq similarity_self)
  with mem have "filter ?hit (consistency_checks ?m1) \<noteq> []"
    by (auto simp add: filter_empty_conv)
  then have "1 \<le> length (filter ?hit (consistency_checks ?m1))"
    by (cases "filter ?hit (consistency_checks ?m1)") simp_all
  then show ?thesis
    by (simp add: check_consistency_def [of ?m1] Let_def last_limit_history)
qed

theorem check_consistency_repeat_witness:
  "py_split (lower ''Hola mundo'') \<noteq> [] \<and> length ''Hola mundo'' \<le> 200 \<and>
   1 \<le> cc_similar_previous
          (last (consistency_checks
                   (check_consistency (check_consistency init_metrics ''t1'' ''Hola mundo'' ''r1'')
                      ''t2'' ''Hola mundo'' ''r2'')))"
proof -
  have a: "py_split (lower ''Hola mundo'') \<noteq> []"
    by (simp add: py_split_def lower_def lower_char_def is_space_def)
  have b: "length ''Hola mundo'' \<le> 200" by simp
  show ?thesis
    using a b check_consistency_repeat [OF a b, of init_metrics "''t1''" "''r1''" "''t2''" "''r2''"]
    by simp
qed

text \<open>A query without words is similar to nothing, itself included: \<open>_similarity\<close>
  returns 0 when either word set is empty.\<close>

theorem check_consistency_empty_query_counterexample:
  "\<not> 1 \<le> cc_similar_previous
          (last (consistency_checks
                   (check_consistency (check_consistency init_metrics ''t1'' [] ''r1'')
                      ''t2'' [] ''r2'')))"
  by (simp add: check_consistency_def init_metrics_def limit_history_def similarity_def
      py_split_def lower_def Let_def)

section \<open>Latency percentiles\<close>

text \<open>The bit length of a numeral, one halving at a time.\<close>

lemma bitlen_numeral: "bitlen (numeral k) = bitlen (numeral k div 2) + 1"
  by (subst compute_bitlen) simp

lemma bitlen_one: "bitlen 1 = 1"
  by (subst compute_bitlen) simp

lemma idx95: "list_all (\<lambda>n. int_of_float_mul n double_0_95 = n * 95 div 100) [2..<101]"
  by (simp add: int_of_float_mul_def double_0_95_def round_sig53_def
      bitlen_numeral bitlen_one Let_def)

lemma idx99: "list_all (\<lambda>n. int_of_float_mul n double_0_99 = n * 99 div 100) [2..<101]"
  by (simp add: int_of_float_mul_def double_0_99_def round_sig53_def
      bitlen_numeral bitlen_one Let_def)

lemma idx_small:
  "int_of_float_mul 0 double_0_95 = 0" "int_of_float_mul (Suc 0) double_0_95 = 0"
  "int_of_float_mul 0 double_0_99 = 0" "int_of_float_mul (Suc 0) double_0_99 = 0"
  by (simp_all add: int_of_float_mul_def double_0_95_def double_0_99_def round_sig53_def
      bitlen_numeral bitlen_one Let_def)

lemma p95_index:
  assumes "n \<le> 100"
  shows "int_of_float_mul n double_0_95 = n * 95 div 100"
proof -
  consider "n = 0" | "n = Suc 0" | "2 \<le> n" by linarith
  then show ?thesis
  proof cases
    case 3
    then have "n \<in> set [2..<101]"
      using assms unfolding set_upt by simp
    with idx95 show ?thesis
      unfolding list_all_iff by blast
  qed (simp_all add: idx_small)
qed

lemma p99_index:
  assumes "n \<le> 100"
  shows "int_of_float_mul n double_0_99 = n * 99 div 100"
proof -
  consider "n = 0" | "n = Suc 0" | "2 \<le> n" by linarith
  then show ?thesis
  proof cases
    case 3
    then have "n \<in> set [2..<101]"
      using assms unfolding set_upt by simp
    with idx99 show ?thesis
      unfolding list_all_iff by blast
  qed (simp_all add: idx_small)
qed

lemma round_half_even_of_int: "round_half_even (of_int k) = k"
  by (simp add: round_half_even_def)

lemma py_round_of_int: "py_round nd (of_int k) = of_int k"
proof -
  have "(of_int k :: rat) * 10 ^ nd = of_int (k * 10 ^ nd)" by simp
  then have "round_half_even (of_int k * 10 ^ nd) = k * 10 ^ nd"
    using round_half_even_of_int [of "k * 10 ^ nd"] by simp
  then show ?thesis by (simp add: py_round_def)
qed

lemma sample_sorted: "sort (map rat_of_int [1..100]) = map rat_of_int [1..100]"
proof -
  have "sorted (map rat_of_int [1..100])"
    unfolding sorted_map by (rule sorted_wrt_mono_rel [OF _ sorted_upto]) simp
  then show ?thesis by (rule sorted_sort_id)
qed

lemma sample_nth: "k < 100 \<Longrightarrow> map rat_of_int [1..100] ! k = of_int (1 + int k)"
  by simp

lemma summary_percentiles:
  assumes "latency_history m \<noteq> []" and "length (latency_history m) \<le> 100"
  shows "s_p95_latency (get_summary m t) =
           py_round 3 (sort (map lat_latency (latency_history m)) !
                         (length (latency_history m) * 95 div 100))"
    and "s_p99_latency (get_summary m t) =
           py_round 3 (sort (map lat_latency (latency_history m)) !
                         (length (latency_history m) * 99 div 100))"
proof -
  have pos: "0 < length (latency_history m)" using assms(1) by simp
  then have lt: "length (latency_history m) * 95 div 100 < length (latency_history m)"
    "length (latency_history m) * 99 div 100 < length (latency_history m)"
    by arith+
  show "s_p95_latency (get_summary m t) =
           py_round 3 (sort (map lat_latency (latency_history m)) !
                         (length (latency_history m) * 95 div 100))"
    using assms lt by (simp add: get_summary_def Let_def percentile_at_def p95_index)
  show "s_p99_latency (get_summary m t) =
           py_round 3 (sort (map lat_latency (latency_history m)) !
                         (length (latency_history m) * 99 div 100))"
    using assms lt by (simp add: get_summary_def Let_def percentile_at_def p99_index)
qed

lemma one_request_history:
  "latency_history (one_request x) = [\<lparr>lat_timestamp = ''t'', lat_latency = x, lat_success = True\<rparr>]"
  by (simp add: one_request_def record_request_fields init_metrics_def limit_history_def)

text \<open>
  Claim C4, amended.  For a non-empty retained latency history of length \<open>n \<le> 100\<close>,
  the indices \<open>n * 95 div 100\<close> and \<open>n * 99 div 100\<close> are inside the sorted
  latencies (the clamp to the last index never applies), and \<open>p95_latency\<close> and
  \<open>p99_latency\<close> of the summary are the sorted latencies at these indices rounded to
  three decimal places.  On the sample 1, 2, ..., 100 they are 96 and 100; on a single
  latency both are that latency rounded to three decimal places.
\<close>

theorem percentile_latencies:
  assumes "latency_history m \<noteq> []" and "length (latency_history m) \<le> 100"
  shows "length (latency_history m) * 95 div 100 < length (latency_history m) \<and>
         length (latency_history m) * 99 div 100 < length (latency_history m) \<and>
         s_p95_latency (get_summary m t) =
           py_round 3 (sort (map lat_latency (latency_history m)) !
                         (length (latency_history m) * 95 div 100)) \<and>
         s_p99_latency (get_summary m t) =
           py_round 3 (sort (map lat_latency (latency_history m)) !
                         (length (latency_history m) * 99 div 100)) \<and>
         (map lat_latency (latency_history m) = map rat_of_int [1..100] \<longrightarrow>
            s_p95_latency (get_summary m t) = 96 \<and> s_p99_latency (get_summary m t) = 100) \<and>
         (\<forall>x. map lat_latency (latency_history m) = [x] \<longrightarrow>
            s_p95_latency (get_summary m t) = py_round 3 x \<and>
            s_p99_latency (get_summary m t) = py_round 3 x)"
proof -
  note p = summary_percentiles [OF assms, of t]
  have pos: "0 < length (latency_history m)" using assms(1) by simp
  have sample: "s_p95_latency (get_summary m t) = 96 \<and> s_p99_latency (get_summary m t) = 100"
    if eq: "map lat_latency (latency_history m) = map rat_of_int [1..100]"
  proof -
    have "length (map lat_latency (latency_history m)) = 100"
      unfolding eq by simp
    then have len: "length (latency_history m) = 100" by simp
    have "py_round 3 (rat_of_int 96) = 96" "py_round 3 (rat_of_int 100) = 100"
      unfolding py_round_of_int by simp_all
    then show ?thesis
      unfolding p eq sample_sorted len by (simp add: sample_nth)
  qed
  have single: "s_p95_latency (get_summary m t) = py_round 3 x \<and>
                s_p99_latency (get_summary m t) = py_round 3 x"
    if eq: "map lat_latency (latency_history m) = [x]" for x
  proof -
    have "length (map lat_latency (latency_history m)) = 1"
      unfolding eq by simp
    then have len: "length (latency_history m) = 1" by simp
    show ?thesis
      unfolding p eq len by simp
  qed
  have lt: "length (latency_history m) * 95 div 100 < length (latency_history m)"
    "length (latency_history m) * 99 div 100 < length (latency_history m)"
    using pos by arith+
  show ?thesis
    using lt p sample single by blast
qed

theorem percentile_latencies_witness:
  "latency_history (one_request (1 / 4)) \<noteq> [] \<and>
   length (latency_history (one_request (1 / 4))) \<le> 100 \<and>
   s_p95_latency (get_summary (one_request (1 / 4)) ''t'') = 1 / 4 \<and>
   s_p99_latency (get_summary (one_request (1 / 4)) ''t'') = 1 / 4"
proof -
  have a: "latency_history (one_request (1 / 4)) \<noteq> []"
    and b: "length (latency_history (one_request (1 / 4))) \<le> 100"
    by (simp_all add: one_request_history)
  have r: "py_round 3 (1 / 4) = 1 / 4"
    by (simp add: py_round_def round_half_even_def Let_def)
  show ?thesis
    using a b percentile_latencies [OF a b, of "''t''"]
    by (simp add: one_request_history r)
qed

text \<open>A single retained latency of \<open>1 / 8192\<close> seconds is reported as 0, not as
  itself: \<open>get_summary\<close> rounds to three decimal places.\<close>

theorem percentile_rounding_counterexample:
  "map lat_latency (latency_history (one_request (1 / 8192))) = [1 / 8192] \<and>
   s_p95_latency (get_summary (one_request (1 / 8192)) ''t'') \<noteq> 1 / 8192 \<and>
   s_p99_latency (get_summary (one_request (1 / 8192)) ''t'') \<noteq> 1 / 8192"
proof -
  have a: "latency_history (one_request (1 / 8192)) \<noteq> []"
    and b: "length (latency_history (one_request (1 / 8192))) \<le> 100"
    by (simp_all add: one_request_history)
  have fl: "\<lfloor>125 / 1024 :: rat\<rfloor> = 0"
    by (rule floor_unique) simp_all
  have r: "py_round 3 (1 / 8192) = 0"
    by (simp add: py_round_def round_half_even_def Let_def fl)
  show ?thesis
    unfolding summary_percentiles [OF a b]
    by (simp add: one_request_history r)
qed

end
